theory Spec2Isabelle
  imports Complex_Main "HOL-Library.Word"
begin

section \<open>The arithmetic of \<open>double\<close>\<close>

text \<open>
  The library computes on C++ \<open>double\<close>. The model keeps the exact real value of a
  finite number and the three special values of IEEE 754 that decide control flow in
  the code: both infinities and NaN (the square root of a negative number, the
  difference of two infinities, zero divided by zero). Rounding, overflow of a finite
  result to an infinity and the sign of zero are not modelled: a finite operation
  returns the exact real. The special values follow the rules of IEEE 754. Equality of
  two values of the model is identity; the code only ever tests a double against zero,
  where this is the \<open>==\<close> of C++ (NaN is not zero).
\<close>

datatype double = Fin real | PInf | MInf | NaN

instantiation double :: "{plus,minus,uminus,times,inverse,ord}"
begin

fun uminus_double :: "double \<Rightarrow> double" where
  "uminus_double (Fin a) = Fin (- a)"
| "uminus_double PInf = MInf"
| "uminus_double MInf = PInf"
| "uminus_double NaN = NaN"

fun plus_double :: "double \<Rightarrow> double \<Rightarrow> double" where
  "plus_double NaN y = NaN"
| "plus_double x NaN = NaN"
| "plus_double (Fin a) (Fin b) = Fin (a + b)"
| "plus_double PInf MInf = NaN"
| "plus_double MInf PInf = NaN"
| "plus_double PInf y = PInf"
| "plus_double MInf y = MInf"
| "plus_double x PInf = PInf"
| "plus_double x MInf = MInf"

definition minus_double :: "double \<Rightarrow> double \<Rightarrow> double" where
  "minus_double x y = x + (- y)"

fun times_double :: "double \<Rightarrow> double \<Rightarrow> double" where
  "times_double NaN y = NaN"
| "times_double x NaN = NaN"
| "times_double (Fin a) (Fin b) = Fin (a * b)"
| "times_double PInf (Fin b) = (if b = 0 then NaN else if 0 < b then PInf else MInf)"
| "times_double MInf (Fin b) = (if b = 0 then NaN else if 0 < b then MInf else PInf)"
| "times_double (Fin a) PInf = (if a = 0 then NaN else if 0 < a then PInf else MInf)"
| "times_double (Fin a) MInf = (if a = 0 then NaN else if 0 < a then MInf else PInf)"
| "times_double PInf PInf = PInf"
| "times_double PInf MInf = MInf"
| "times_double MInf PInf = MInf"
| "times_double MInf MInf = PInf"

fun divide_double :: "double \<Rightarrow> double \<Rightarrow> double" where
  "divide_double NaN y = NaN"
| "divide_double x NaN = NaN"
| "divide_double (Fin a) (Fin b) =
     (if b = 0 then (if a = 0 then NaN else if 0 < a then PInf else MInf)
      else Fin (a / b))"
| "divide_double (Fin a) PInf = Fin 0"
| "divide_double (Fin a) MInf = Fin 0"
| "divide_double PInf (Fin b) = (if 0 \<le> b then PInf else MInf)"
| "divide_double MInf (Fin b) = (if 0 \<le> b then MInf else PInf)"
| "divide_double PInf y = NaN"
| "divide_double MInf y = NaN"

fun inverse_double :: "double \<Rightarrow> double" where
  "inverse_double (Fin a) = (if a = 0 then PInf else Fin (1 / a))"
| "inverse_double PInf = Fin 0"
| "inverse_double MInf = Fin 0"
| "inverse_double NaN = NaN"

text \<open>Comparisons are IEEE comparisons: every comparison with NaN is false.\<close>

fun less_double :: "double \<Rightarrow> double \<Rightarrow> bool" where
  "less_double NaN y = False"
| "less_double x NaN = False"
| "less_double (Fin a) (Fin b) = (a < b)"
| "less_double (Fin a) PInf = True"
| "less_double (Fin a) MInf = False"
| "less_double PInf y = False"
| "less_double MInf (Fin b) = True"
| "less_double MInf PInf = True"
| "less_double MInf MInf = False"

fun less_eq_double :: "double \<Rightarrow> double \<Rightarrow> bool" where
  "less_eq_double NaN y = False"
| "less_eq_double x NaN = False"
| "less_eq_double (Fin a) (Fin b) = (a \<le> b)"
| "less_eq_double (Fin a) PInf = True"
| "less_eq_double (Fin a) MInf = False"
| "less_eq_double PInf (Fin b) = False"
| "less_eq_double PInf PInf = True"
| "less_eq_double PInf MInf = False"
| "less_eq_double MInf y = True"

instance ..

end

text \<open>The functions of \<open>cmath\<close> the library calls.\<close>

fun fabs :: "double \<Rightarrow> double" where
  "fabs (Fin a) = Fin \<bar>a\<bar>"
| "fabs PInf = PInf"
| "fabs MInf = PInf"
| "fabs NaN = NaN"

fun sqrt_d :: "double \<Rightarrow> double" where
  "sqrt_d (Fin a) = (if a < 0 then NaN else Fin (sqrt a))"
| "sqrt_d PInf = PInf"
| "sqrt_d MInf = NaN"
| "sqrt_d NaN = NaN"

fun sinh_d :: "double \<Rightarrow> double" where
  "sinh_d (Fin a) = Fin (sinh a)"
| "sinh_d PInf = PInf"
| "sinh_d MInf = MInf"
| "sinh_d NaN = NaN"

fun asinh :: "double \<Rightarrow> double" where
  "asinh (Fin a) = Fin (arsinh a)"
| "asinh PInf = PInf"
| "asinh MInf = MInf"
| "asinh NaN = NaN"

fun sin_d :: "double \<Rightarrow> double" where
  "sin_d (Fin a) = Fin (sin a)"
| "sin_d PInf = NaN"
| "sin_d MInf = NaN"
| "sin_d NaN = NaN"

fun asin :: "double \<Rightarrow> double" where
  "asin (Fin a) = (if \<bar>a\<bar> \<le> 1 then Fin (arcsin a) else NaN)"
| "asin PInf = NaN"
| "asin MInf = NaN"
| "asin NaN = NaN"

fun atan :: "double \<Rightarrow> double" where
  "atan (Fin a) = Fin (arctan a)"
| "atan PInf = Fin (pi / 2)"
| "atan MInf = Fin (- pi / 2)"
| "atan NaN = NaN"

text \<open>\<open>numeric_limits<double>::epsilon()\<close>: the gap between 1 and the next double.\<close>

definition epsilon :: double where
  "epsilon = Fin (1 / 2 ^ 52)"

section \<open>cosmo.h and cosmo.cc: constants and the class\<close>

text \<open>The global physical constants.\<close>

definition c :: double where
  "c = Fin 299792.458"

definition G :: double where
  "G = Fin (6.67259 / 10 ^ 8)"

definition PI :: double where
  "PI = atan (Fin 1) * Fin 4"

definition kmPerMpc :: double where
  "kmPerMpc = Fin (3.08567758 * 10 ^ 19)"

definition tropicalYear :: double where
  "tropicalYear = Fin (3.1556926 * 10 ^ 7)"

text \<open>The data members of \<open>class Cosmo\<close>. The member \<open>x_\<close> of the class is the
  field \<open>x_f\<close> of the record.\<close>

record Cosmo =
  H0_f :: double
  q0_f :: double
  OmegaM_f :: double
  OmegaL_f :: double
  Omegak_f :: double
  dH_f :: double
  z_f :: double
  dA_f :: double
  dL_f :: double
  dC_f :: double
  dM_f :: double
  VC_f :: double
  tL_f :: double
  age_f :: double
  scale_f :: double
  rhoCrit_f :: double

definition SQR :: "double \<Rightarrow> double" where
  "SQR a = a * a"

definition CUBE :: "double \<Rightarrow> double" where
  "CUBE a = a * a * a"

text \<open>The expansion factor and the three integrands; each reads the density parameters
  of the object it is called on.\<close>

definition E :: "Cosmo \<Rightarrow> double \<Rightarrow> double" where
  "E this z = sqrt_d (OmegaM_f this * CUBE (Fin 1 + z) + Omegak_f this * SQR (Fin 1 + z) + OmegaL_f this)"

definition inverseOfE :: "Cosmo \<Rightarrow> double \<Rightarrow> double" where
  "inverseOfE this z = Fin 1 / E this z"

definition lookbackIntegrand :: "Cosmo \<Rightarrow> double \<Rightarrow> double" where
  "lookbackIntegrand this z = Fin 1 / (Fin 1 + z) / E this z"

definition ageIntegrand :: "Cosmo \<Rightarrow> double \<Rightarrow> double" where
  "ageIntegrand this x = (let z = x / (Fin 1 - x) in Fin 1 / (Fin 1 + z) / E this z / SQR (Fin 1 - x))"

subsection \<open>Romberg integration\<close>

text \<open>The locals \<open>N\<close> (maximum number of rows) and \<open>prec\<close> (desired precision) of
  \<open>Cosmo::romberg\<close>.\<close>

definition N :: nat where
  "N = 25"

definition prec :: double where
  "prec = Fin (1 / 10 ^ 8)"

text \<open>The summation of the recursive trapezoidal rule:
  \<^verbatim>\<open>for( k=1; k<=(np-1); k+=2 ) sumT += (this->*func)( a + k*h);\<close>
  The panel count \<open>np\<close> is at most \<open>2^24\<close>, so \<open>np\<close> and \<open>k\<close> never overflow an
  \<open>int\<close>.\<close>

function sumT_loop :: "(double \<Rightarrow> double) \<Rightarrow> double \<Rightarrow> double \<Rightarrow> int \<Rightarrow> int \<Rightarrow> double \<Rightarrow> double" where
  "sumT_loop func a h np k sumT =
     (if k \<le> np - 1 then sumT_loop func a h np (k + 2) (sumT + func (a + Fin (of_int k) * h))
      else sumT)"
  by pat_completeness auto
termination
  by (relation "measure (\<lambda>(func, a, h, np, k, sumT). nat (np - k))") auto

text \<open>The Richardson extrapolation along row \<open>i\<close>:
  \<^verbatim>\<open>for( j=1; j<i; ++j ) { m *= 4; R[N*i+j] = R[N*i+j-1] + (R[N*i+j-1] - R[N*(i-1)+j-1]) / (m-1); }\<close>
  \<open>R\<close> is the flat \<open>vector<double>\<close> of \<open>N*N\<close> entries. The multiplier \<open>m\<close> is an
  \<open>int\<close> and reaches \<open>4^16 = 2^32\<close> in row 17: it is a 32-bit word that wraps (the
  overflow is undefined behaviour in C++; two's-complement wrap-around is what the
  usual targets do). The loop returns the table and the final \<open>j\<close>.\<close>

function extrapolate :: "nat \<Rightarrow> nat \<Rightarrow> 32 word \<Rightarrow> double list \<Rightarrow> double list \<times> nat" where
  "extrapolate i j m R =
     (if j < i then
        let m = m * 4;
            R = R[N * i + j := R ! (N * i + j - 1)
                   + (R ! (N * i + j - 1) - R ! (N * (i - 1) + j - 1)) / Fin (of_int (sint (m - 1)))]
        in extrapolate i (j + 1) m R
      else (R, j))"
  by pat_completeness auto
termination
  by (relation "measure (\<lambda>(i, j, m, R). i - j)") auto

text \<open>The result of the loop over the rows: either the convergence test succeeded in
  some row and the loop returned from inside, or all rows were computed.\<close>

datatype outcome = Converged double | Exhausted "double list"

function romberg_rows :: "(double \<Rightarrow> double) \<Rightarrow> double \<Rightarrow> nat \<Rightarrow> double \<Rightarrow> int \<Rightarrow> double list \<Rightarrow> outcome" where
  "romberg_rows func a i h np R =
     (if i < N then
        let h = h / Fin 2;
            np = np * 2;
            sumT = sumT_loop func a h np 1 (Fin 0);
            R = R[N * i := Fin 0.5 * R ! (N * (i - 1)) + h * sumT];
            (R, j) = extrapolate i 1 1 R;
            dR = (if 1 < j then R ! (N * i + j - 1) - R ! (N * (i - 1) + (j - 2)) else R ! 0)
        in if fabs dR < prec then Converged (R ! (N * i + j - 1))
           else romberg_rows func a (i + 1) h np R
      else Exhausted R)"
  by pat_completeness auto
termination
  by (relation "measure (\<lambda>(func, a, i, h, np, R). N - i)") auto

text \<open>\<open>Cosmo::romberg\<close>. \<open>vector<double> R(N*N)\<close> starts filled with \<open>0.0\<close>; after the
  loop the function returns \<open>R.back()\<close>.\<close>

definition romberg :: "(double \<Rightarrow> double) \<Rightarrow> double \<Rightarrow> double \<Rightarrow> double" where
  "romberg func a b =
     (let h = b - a;
          R = replicate (N * N) (Fin 0);
          R = R[0 := h / Fin 2 * (func a + func b)]
      in case romberg_rows func a 1 h 1 R of
           Converged r \<Rightarrow> r
         | Exhausted R \<Rightarrow> last R)"

subsection \<open>The member functions of \<open>Cosmo\<close>\<close>

text \<open>\<open>Cosmo::init\<close>, called by the constructors and by the mutators. The age integral
  is taken after the density parameters of the object have been set.\<close>

definition init :: "double \<Rightarrow> double \<Rightarrow> double \<Rightarrow> Cosmo \<Rightarrow> Cosmo" where
  "init hNought omegaMatter omegaLambda this =
     (let this = this\<lparr>H0_f := hNought, OmegaM_f := omegaMatter, OmegaL_f := omegaLambda,
                      Omegak_f := Fin 1 - omegaMatter - omegaLambda\<rparr>;
          this = (if fabs (Omegak_f this) \<le> epsilon then this\<lparr>Omegak_f := Fin 0\<rparr> else this);
          this = this\<lparr>q0_f := Fin 0.5 * OmegaM_f this - OmegaL_f this\<rparr>;
          this = this\<lparr>dH_f := c / H0_f this\<rparr>;
          this = this\<lparr>age_f := romberg (ageIntegrand this) (Fin 0) (Fin 1 - epsilon)
                                / H0_f this * kmPerMpc\<rparr>
      in this\<lparr>dC_f := Fin 0, dM_f := Fin 0, dA_f := Fin 0, dL_f := Fin 0, VC_f := Fin 0,
              tL_f := Fin 0, z_f := Fin 0, scale_f := Fin 0, rhoCrit_f := Fin 0\<rparr>)"

text \<open>\<open>Cosmo::setDistances\<close>. The test \<open>!z_\<close> is \<open>z_ == 0\<close>.\<close>

definition setDistances :: "Cosmo \<Rightarrow> Cosmo" where
  "setDistances this =
     (let this = this\<lparr>rhoCrit_f := Fin 3 / Fin 8 / PI * SQR (H0_f this / kmPerMpc) / G
                        * (OmegaL_f this + CUBE (Fin 1 + z_f this) * OmegaM_f this)\<rparr>
      in if z_f this = Fin 0 then
           this\<lparr>dC_f := Fin 0, dM_f := Fin 0, VC_f := Fin 0, dA_f := Fin 0, dL_f := Fin 0,
                tL_f := Fin 0, scale_f := Fin 0\<rparr>
         else
           let this = this\<lparr>dC_f := dH_f this * romberg (inverseOfE this) (Fin 0) (z_f this)\<rparr>;
               this =
                (if Fin 0 < Omegak_f this then
                   let this = this\<lparr>dM_f := dH_f this / sqrt_d (Omegak_f this)
                                * sinh_d (sqrt_d (Omegak_f this) * dC_f this / dH_f this)\<rparr>
                   in this\<lparr>VC_f := Fin 2 * PI * CUBE (dH_f this) / Omegak_f this
                        * (dM_f this / dH_f this * sqrt_d (Fin 1 + Omegak_f this * SQR (dM_f this / dH_f this))
                           - asinh (sqrt_d (fabs (Omegak_f this)) * dM_f this / dH_f this)
                             / sqrt_d (fabs (Omegak_f this)))
                        / Fin (10 ^ 9)\<rparr>
                 else if Omegak_f this < Fin 0 then
                   let this = this\<lparr>dM_f := dH_f this / sqrt_d (fabs (Omegak_f this))
                                * sin_d (sqrt_d (fabs (Omegak_f this)) * dC_f this / dH_f this)\<rparr>
                   in this\<lparr>VC_f := Fin 2 * PI * CUBE (dH_f this) / Omegak_f this
                        * (dM_f this / dH_f this * sqrt_d (Fin 1 + Omegak_f this * SQR (dM_f this / dH_f this))
                           - asin (sqrt_d (fabs (Omegak_f this)) * dM_f this / dH_f this)
                             / sqrt_d (fabs (Omegak_f this)))
                        / Fin (10 ^ 9)\<rparr>
                 else
                   let this = this\<lparr>dM_f := dC_f this\<rparr>
                   in this\<lparr>VC_f := Fin 4 * PI * CUBE (dM_f this) / Fin 3 / Fin (10 ^ 9)\<rparr>);
               this = this\<lparr>dA_f := dM_f this / (Fin 1 + z_f this)\<rparr>;
               this = this\<lparr>dL_f := dM_f this * (Fin 1 + z_f this)\<rparr>;
               this = this\<lparr>tL_f := romberg (lookbackIntegrand this) (Fin 0) (z_f this)
                                    / H0_f this * kmPerMpc\<rparr>
           in this\<lparr>scale_f := dA_f this / Fin 648 * PI\<rparr>)"

text \<open>The two mutators. In \<open>setCosmology\<close> the test \<open>if (z_)\<close> is \<open>z_ != 0\<close>, read
  after \<open>init\<close> has run.\<close>

definition setCosmology :: "double \<Rightarrow> double \<Rightarrow> double \<Rightarrow> Cosmo \<Rightarrow> Cosmo" where
  "setCosmology hNought omegaMatter omegaLambda this =
     (let this = init hNought omegaMatter omegaLambda this
      in if z_f this \<noteq> Fin 0 then setDistances this else this)"

definition setRedshift :: "double \<Rightarrow> Cosmo \<Rightarrow> Cosmo" where
  "setRedshift redshift this = setDistances (this\<lparr>z_f := redshift\<rparr>)"

text \<open>\<open>Cosmo::clone\<close>, used by the copy constructor and by the assignment operator.\<close>

definition clone :: "Cosmo \<Rightarrow> Cosmo \<Rightarrow> Cosmo" where
  "clone a this = setRedshift (z_f a) (init (H0_f a) (OmegaM_f a) (OmegaL_f a) this)"

text \<open>The storage of an object before its constructor has run. Its contents are
  indeterminate in C++; \<open>init\<close> assigns every member (lemma \<open>init_overwrites\<close> below),
  so no result depends on the value chosen here.\<close>

definition storage :: Cosmo where
  "storage = \<lparr>H0_f = NaN, q0_f = NaN, OmegaM_f = NaN, OmegaL_f = NaN, Omegak_f = NaN,
     dH_f = NaN, z_f = NaN, dA_f = NaN, dL_f = NaN, dC_f = NaN, dM_f = NaN, VC_f = NaN,
     tL_f = NaN, age_f = NaN, scale_f = NaN, rhoCrit_f = NaN\<rparr>"

text \<open>The constructors: \<open>Cosmo()\<close>, \<open>Cosmo(hNought, omegaMatter, omegaLambda)\<close> and
  \<open>Cosmo(const Cosmo&)\<close>.\<close>

definition Cosmo_default :: Cosmo where
  "Cosmo_default = init (Fin 67.04) (Fin 0.3183) (Fin 0.6817) storage"

definition Cosmo_params :: "double \<Rightarrow> double \<Rightarrow> double \<Rightarrow> Cosmo" where
  "Cosmo_params hNought omegaMatter omegaLambda = init hNought omegaMatter omegaLambda storage"

definition Cosmo_copy :: "Cosmo \<Rightarrow> Cosmo" where
  "Cosmo_copy a = clone a storage"

text \<open>\<open>Cosmo::operator=\<close>. The operator compares addresses, so objects live in a memory
  indexed by address; \<open>this\<close> and \<open>a\<close> are the addresses of the target and the source.\<close>

definition operator_assign :: "nat \<Rightarrow> nat \<Rightarrow> (nat \<Rightarrow> Cosmo) \<Rightarrow> (nat \<Rightarrow> Cosmo)" where
  "operator_assign this a mem =
     (if this = a then mem else mem(this := clone (mem a) (mem this)))"



subsection \<open>The non-member function \<open>isNumeric\<close>\<close>

text \<open>\<open>std::string::npos\<close>, and the searches of \<open>std::string\<close> the validator calls:
  each returns the first position that matches, or \<open>npos\<close>.\<close>

definition npos :: nat where
  "npos = 2 ^ 64 - 1"

fun first_index :: "(char \<Rightarrow> bool) \<Rightarrow> string \<Rightarrow> nat \<Rightarrow> nat" where
  "first_index P [] i = npos"
| "first_index P (x # xs) i = (if P x then i else first_index P xs (Suc i))"

definition find_first_not_of :: "string \<Rightarrow> string \<Rightarrow> nat" where
  "find_first_not_of text chars = first_index (\<lambda>x. x \<notin> set chars) text 0"

definition find_ch :: "string \<Rightarrow> char \<Rightarrow> nat \<Rightarrow> nat" where
  "find_ch text ch pos = first_index (\<lambda>x. x = ch) (drop pos text) pos"

text \<open>The validator stores lengths and positions, which are \<open>size_t\<close>, in \<open>int\<close>
  variables: the conversion keeps the low 32 bits, read as two's complement, so
  \<open>npos\<close> becomes \<open>-1\<close>.\<close>

definition to_int :: "nat \<Rightarrow> int" where
  "to_int p = sint (word_of_nat p :: 32 word)"

definition isNumeric :: "string \<Rightarrow> int" where
  "isNumeric text =
     (let n = to_int (length text);
          i = to_int (find_first_not_of text ''-0123456789.'')
      in if 0 \<le> i \<and> i < n then 0
         else
           let i = to_int (find_ch text (CHR ''-'') 1)
           in if 0 < i \<and> i < n then 0
              else
                let i = to_int (find_ch text (CHR ''.'') 0)
                in if 0 \<le> i \<and> i < n then
                     (let i = to_int (find_ch text (CHR ''.'') (nat (i + 1)))
                      in if 0 \<le> i \<and> i < n then 0 else 1)
                   else 1)"

text \<open>What the specification asks of the validator, in its words: the token parses as
  a signed decimal number, that is an optional leading minus sign followed by digits
  with at most one decimal point among them. A number has at least one digit.\<close>

definition is_digit :: "char \<Rightarrow> bool" where
  "is_digit ch = (ch \<in> set ''0123456789'')"

definition signed_decimal :: "string \<Rightarrow> bool" where
  "signed_decimal text =
     (let body = (case text of [] \<Rightarrow> [] | x # xs \<Rightarrow> if x = CHR ''-'' then xs else text)
      in list_all (\<lambda>x. is_digit x \<or> x = CHR ''.'') body
         \<and> length (filter (\<lambda>x. x = CHR ''.'') body) \<le> 1
         \<and> list_ex is_digit body)"

text \<open>The table after the body of the row loop has run once for row \<open>i\<close>; the proofs
  about \<open>romberg_rows\<close> go through it.\<close>

definition row :: "(double \<Rightarrow> double) \<Rightarrow> double \<Rightarrow> nat \<Rightarrow> double \<Rightarrow> int \<Rightarrow> double list \<Rightarrow> double list" where
  "row func a i h np R =
     fst (extrapolate i 1 1
       (R[N * i := Fin 0.5 * R ! (N * (i - 1))
            + h / Fin 2 * sumT_loop func a (h / Fin 2) (np * 2) 1 (Fin 0)]))"

section \<open>Properties\<close>

subsection \<open>Arithmetic and records\<close>


lemma plus_NaN [simp]: "x + NaN = NaN"
  by (cases x) simp_all

lemma minus_NaN [simp]: "x - NaN = NaN" "NaN - x = NaN"
  by (simp_all add: minus_double_def)

lemma times_NaN [simp]: "x * NaN = NaN"
  by (cases x) simp_all

lemma divide_NaN [simp]: "x / NaN = NaN"
  by (cases x) simp_all

lemma less_NaN [simp]: "\<not> x < NaN"
  by (cases x) simp_all

lemma minus_Fin [simp]: "Fin a - Fin b = Fin (a - b)"
  by (simp add: minus_double_def)

lemmas integrand_defs =
  E_def [abs_def] ageIntegrand_def [abs_def] inverseOfE_def [abs_def] lookbackIntegrand_def [abs_def]

lemma init_params [simp]:
  "H0_f (init h m l s) = h"
  "OmegaM_f (init h m l s) = m"
  "OmegaL_f (init h m l s) = l"
  "Omegak_f (init h m l s) = (if fabs (Fin 1 - m - l) \<le> epsilon then Fin 0 else Fin 1 - m - l)"
  "q0_f (init h m l s) = Fin 0.5 * m - l"
  "dH_f (init h m l s) = c / h"
  by (simp_all add: init_def Let_def)

lemma init_zeroes [simp]:
  "z_f (init h m l s) = Fin 0"
  "dC_f (init h m l s) = Fin 0"
  "dM_f (init h m l s) = Fin 0"
  "dA_f (init h m l s) = Fin 0"
  "dL_f (init h m l s) = Fin 0"
  "VC_f (init h m l s) = Fin 0"
  "tL_f (init h m l s) = Fin 0"
  "scale_f (init h m l s) = Fin 0"
  "rhoCrit_f (init h m l s) = Fin 0"
  by (simp_all add: init_def Let_def)

lemma init_age:
  "age_f (init h m l s) = romberg (ageIntegrand (init h m l s)) (Fin 0) (Fin 1 - epsilon) / h * kmPerMpc"
  by (simp add: init_def Let_def integrand_defs)

text \<open>\<open>init\<close> assigns every member: the object it leaves does not depend on the one it
  found.\<close>

lemma init_overwrites: "init h m l s = init h m l s'"
  by (rule Cosmo.equality) (simp_all add: init_age, simp add: integrand_defs)

lemma setDistances_frame [simp]:
  "H0_f (setDistances s) = H0_f s"
  "q0_f (setDistances s) = q0_f s"
  "OmegaM_f (setDistances s) = OmegaM_f s"
  "OmegaL_f (setDistances s) = OmegaL_f s"
  "Omegak_f (setDistances s) = Omegak_f s"
  "dH_f (setDistances s) = dH_f s"
  "z_f (setDistances s) = z_f s"
  "age_f (setDistances s) = age_f s"
  by (simp_all add: setDistances_def Let_def)



lemma setDistances_dC:
  "z_f s \<noteq> Fin 0 \<Longrightarrow> dC_f (setDistances s) = dH_f s * romberg (inverseOfE s) (Fin 0) (z_f s)"
  by (simp add: setDistances_def Let_def integrand_defs)




lemma setRedshift_frame [simp]:
  "H0_f (setRedshift r s) = H0_f s"
  "q0_f (setRedshift r s) = q0_f s"
  "OmegaM_f (setRedshift r s) = OmegaM_f s"
  "OmegaL_f (setRedshift r s) = OmegaL_f s"
  "Omegak_f (setRedshift r s) = Omegak_f s"
  "dH_f (setRedshift r s) = dH_f s"
  "z_f (setRedshift r s) = r"
  "age_f (setRedshift r s) = age_f s"
  by (simp_all add: setRedshift_def)

lemma setCosmology_eq_init: "setCosmology h m l s = init h m l s"
  by (simp add: setCosmology_def Let_def)

lemma clone_frame [simp]:
  "H0_f (clone a s) = H0_f a"
  "OmegaM_f (clone a s) = OmegaM_f a"
  "OmegaL_f (clone a s) = OmegaL_f a"
  "z_f (clone a s) = z_f a"
  "Omegak_f (clone a s) = (if fabs (Fin 1 - OmegaM_f a - OmegaL_f a) \<le> epsilon then Fin 0
                            else Fin 1 - OmegaM_f a - OmegaL_f a)"
  by (simp_all add: clone_def)


subsection \<open>The Romberg table\<close>

declare sumT_loop.simps [simp del] extrapolate.simps [simp del] romberg_rows.simps [simp del]

lemma extrapolate_length: "length (fst (extrapolate i j m R)) = length R"
proof (induction "i - j" arbitrary: j m R)
  case 0
  then show ?case by (simp add: extrapolate.simps [of i j m R])
next
  case (Suc d)
  then have "j < i" "d = i - (j + 1)" by simp_all
  then show ?case
    using Suc.hyps(1) [of "j + 1"] by (simp add: extrapolate.simps [of i j m R] Let_def)
qed

lemma extrapolate_snd: "snd (extrapolate i j m R) = max i j"
proof (induction "i - j" arbitrary: j m R)
  case 0
  then show ?case by (simp add: extrapolate.simps [of i j m R])
next
  case (Suc d)
  then have "j < i" "d = i - (j + 1)" by simp_all
  then show ?case
    using Suc.hyps(1) [of "j + 1"] by (simp add: extrapolate.simps [of i j m R] Let_def)
qed

lemma extrapolate_nth:
  "k < N * i + j \<or> N * i + i \<le> k \<Longrightarrow> fst (extrapolate i j m R) ! k = R ! k"
proof (induction "i - j" arbitrary: j m R)
  case 0
  then show ?case by (simp add: extrapolate.simps [of i j m R])
next
  case (Suc d)
  then have *: "j < i" "d = i - (j + 1)" by simp_all
  have "k \<noteq> N * i + j" using Suc.prems * by auto
  moreover have "k < N * i + (j + 1) \<or> N * i + i \<le> k" using Suc.prems by auto
  ultimately show ?case
    using Suc.hyps(1) [OF *(2)] * by (simp add: extrapolate.simps [of i j m R] Let_def)
qed

lemma extrapolate_NaN:
  "R ! (N * i + j - 1) = NaN \<Longrightarrow> 1 \<le> j \<Longrightarrow> N * i + i \<le> length R
   \<Longrightarrow> fst (extrapolate i j m R) ! (N * i + snd (extrapolate i j m R) - 1) = NaN"
proof (induction "i - j" arbitrary: j m R)
  case 0
  then show ?case by (simp add: extrapolate.simps [of i j m R])
next
  case (Suc d)
  then have *: "j < i" "d = i - (j + 1)" by simp_all
  define R' where "R' = R[N * i + j := R ! (N * i + j - 1)
      + (R ! (N * i + j - 1) - R ! (N * (i - 1) + j - 1)) / Fin (of_int (sint (m * 4 - 1)))]"
  have "R' ! (N * i + (j + 1) - 1) = NaN"
    using Suc.prems * by (simp add: R'_def)
  moreover have "N * i + i \<le> length R'" using Suc.prems by (simp add: R'_def)
  ultimately have "fst (extrapolate i (j + 1) (m * 4) R') ! (N * i + snd (extrapolate i (j + 1) (m * 4) R') - 1) = NaN"
    using Suc.hyps(1) [OF *(2)] by simp
  then show ?case
    using * by (simp add: extrapolate.simps [of i j m R] Let_def R'_def)
qed

lemma romberg_rows_step:
  "romberg_rows func a i h np R =
     (if i < N then
        if fabs (if 1 < max i 1 then row func a i h np R ! (N * i + max i 1 - 1)
                    - row func a i h np R ! (N * (i - 1) + (max i 1 - 2))
                 else row func a i h np R ! 0) < prec
        then Converged (row func a i h np R ! (N * i + max i 1 - 1))
        else romberg_rows func a (i + 1) (h / Fin 2) (np * 2) (row func a i h np R)
      else Exhausted R)"
  by (subst romberg_rows.simps)
    (simp add: Let_def row_def split_beta extrapolate_snd)

lemma row_length: "length (row func a i h np R) = length R"
  by (simp add: row_def extrapolate_length)

lemma row_nth: "k < N * i \<or> N * i + i \<le> k \<Longrightarrow> 1 \<le> i \<Longrightarrow> row func a i h np R ! k = R ! k"
  by (auto simp add: row_def extrapolate_nth)

lemma romberg_rows_back:
  "romberg_rows func a i h np R = Exhausted R' \<Longrightarrow> 1 \<le> i
   \<Longrightarrow> length R' = length R \<and> R' ! (N * N - 1) = R ! (N * N - 1)"
proof (induction "N - i" arbitrary: i h np R)
  case 0
  then show ?case by (simp add: romberg_rows_step [of func a i h np R])
next
  case (Suc d)
  then have *: "i < N" "d = N - (i + 1)" by simp_all
  from Suc.prems(1) * have
    "romberg_rows func a (i + 1) (h / Fin 2) (np * 2) (row func a i h np R) = Exhausted R'"
    by (simp add: romberg_rows_step [of func a i h np R] split: if_splits)
  from Suc.hyps(1) [OF *(2) this] have
    "length R' = length R" "R' ! (N * N - 1) = row func a i h np R ! (N * N - 1)"
    by (simp_all add: row_length)
  moreover have "N * i + i \<le> N * N - 1"
    using * by (simp add: N_def)
  ultimately show ?case using Suc.prems(2) by (simp add: row_nth)
qed

lemma romberg_exhausted:
  assumes "romberg_rows func a 1 (b - a) 1
             ((replicate (N * N) (Fin 0))[0 := (b - a) / Fin 2 * (func a + func b)]) = Exhausted R'"
  shows "romberg func a b = Fin 0"
proof -
  from romberg_rows_back [OF assms] have "length R' = N * N" "R' ! (N * N - 1) = Fin 0"
    by (simp_all add: N_def)
  moreover from this have "last R' = R' ! (N * N - 1)"
    by (subst last_conv_nth) (auto simp add: N_def)
  ultimately show ?thesis using assms by (simp add: romberg_def Let_def)
qed

lemma row_NaN:
  assumes "R ! (N * (i - 1)) = NaN" "1 \<le> i" "i < N" "length R = N * N"
  shows "row func a i h np R ! (N * i) = NaN" "row func a i h np R ! (N * i + i - 1) = NaN"
proof -
  define R1 where "R1 = R[N * i := Fin 0.5 * R ! (N * (i - 1))
            + h / Fin 2 * sumT_loop func a (h / Fin 2) (np * 2) 1 (Fin 0)]"
  have len: "N * i + i \<le> length R1" using assms by (simp add: R1_def N_def)
  have R1: "R1 ! (N * i) = NaN" using assms by (simp add: R1_def N_def)
  have "fst (extrapolate i 1 1 R1) ! (N * i) = R1 ! (N * i)"
    by (rule extrapolate_nth) simp
  then show "row func a i h np R ! (N * i) = NaN"
    using R1 by (simp add: row_def R1_def)
  have "fst (extrapolate i 1 1 R1) ! (N * i + snd (extrapolate i 1 1 R1) - 1) = NaN"
    using R1 len by (intro extrapolate_NaN) simp_all
  then show "row func a i h np R ! (N * i + i - 1) = NaN"
    using assms by (simp add: row_def R1_def extrapolate_snd max_def)
qed

lemma romberg_rows_NaN:
  "R ! 0 = NaN \<Longrightarrow> R ! (N * (i - 1)) = NaN \<Longrightarrow> (2 \<le> i \<Longrightarrow> R ! (N * (i - 1) + (i - 2)) = NaN)
   \<Longrightarrow> 1 \<le> i \<Longrightarrow> i \<le> N \<Longrightarrow> length R = N * N
   \<Longrightarrow> \<exists>R'. romberg_rows func a i h np R = Exhausted R' \<and> R' ! (N * (N - 1) + (N - 2)) = NaN"
proof (induction "N - i" arbitrary: i h np R)
  case 0
  then have "i = N" by simp
  moreover have "romberg_rows func a N h np R = Exhausted R"
    by (subst romberg_rows_step) simp
  ultimately show ?case using "0.prems" by (simp add: N_def)
next
  case (Suc d)
  then have *: "i < N" "d = N - (i + 1)" by simp_all
  let ?R = "row func a i h np R"
  have row: "?R ! (N * i) = NaN" "?R ! (N * i + i - 1) = NaN"
    by (rule row_NaN [OF Suc.prems(2) Suc.prems(4) *(1) Suc.prems(6)])+
  have zero: "?R ! 0 = NaN" using Suc.prems by (simp add: row_nth)
  have "\<exists>R'. romberg_rows func a (i + 1) (h / Fin 2) (np * 2) ?R = Exhausted R'
          \<and> R' ! (N * (N - 1) + (N - 2)) = NaN"
  proof (rule Suc.hyps(1) [OF *(2)])
    show "?R ! 0 = NaN" by (rule zero)
    show "?R ! (N * (i + 1 - 1)) = NaN" using row by simp
    show "?R ! (N * (i + 1 - 1) + (i + 1 - 2)) = NaN" using row Suc.prems(4) by simp
    show "1 \<le> i + 1" by simp
    show "i + 1 \<le> N" using * by simp
    show "length ?R = N * N" using Suc.prems by (simp add: row_length)
  qed
  moreover have "\<not> fabs (if 1 < max i 1 then ?R ! (N * i + max i 1 - 1) - ?R ! (N * (i - 1) + (max i 1 - 2))
                 else ?R ! 0) < prec"
    using row zero Suc.prems(4) by (simp add: max_def prec_def)
  ultimately show ?case
    using * by (subst romberg_rows_step) simp
qed

text \<open>The integrator on the identity over \<open>[0, 1]\<close>: rows 1 and 2 are computed, the
  difference of the two diagonal entries is \<open>0\<close>, and the result is \<open>1/2\<close>.\<close>

lemma romberg_identity: "romberg (\<lambda>x. x) (Fin 0) (Fin 1) = Fin (1 / 2)"
  by (simp add: romberg_def romberg_rows.simps extrapolate.simps sumT_loop.simps Let_def N_def
      prec_def)

text \<open>At \<open>Cosmo(70, 0, 2)\<close> the curvature density is \<open>-1\<close>; at the upper bound of the age
  integral \<open>1 + z = 2^52\<close> and the radicand of \<open>E\<close> is \<open>2 - 2^104\<close>.\<close>

lemma ageIntegrand_closed_NaN:
  "ageIntegrand (Cosmo_params (Fin 70) (Fin 0) (Fin 2)) (Fin 1 - epsilon) = NaN"
  by (simp add: Cosmo_params_def init_def Let_def ageIntegrand_def E_def epsilon_def SQR_def CUBE_def)

subsection \<open>The validator\<close>

text \<open>For tokens shorter than \<open>2^31\<close> characters the \<open>int\<close> variables of \<open>isNumeric\<close> hold
  the lengths and positions themselves, and the three tests are: every character is one
  of \<open>-0123456789.\<close>, no minus sign stands after the first position, and there is at
  most one decimal point (\<open>isNumeric_iff\<close>). Against the specification's predicate:
  the validator accepts the signed decimal numbers and four tokens more
  (\<open>isNumeric_signed_decimal\<close>).\<close>

lemma to_int_small: "p < 2 ^ 31 \<Longrightarrow> to_int p = int p"
proof -
  assume "p < 2 ^ 31"
  then have "int p < 2 ^ 31"
    by (metis of_nat_less_iff of_nat_numeral of_nat_power)
  then have "signed_take_bit 31 (int p) = int p"
    by (intro signed_take_bit_int_eq_self) simp_all
  then show ?thesis
    by (simp add: to_int_def signed_of_nat)
qed

lemma to_int_npos: "to_int npos = - 1"
  by (simp add: to_int_def npos_def)

lemma first_index_none: "\<forall>x\<in>set xs. \<not> P x \<Longrightarrow> first_index P xs i = npos"
  by (induction xs arbitrary: i) simp_all

lemma first_index_some:
  "\<exists>x\<in>set xs. P x \<Longrightarrow>
     i \<le> first_index P xs i \<and> first_index P xs i < i + length xs
     \<and> P (xs ! (first_index P xs i - i))
     \<and> (\<forall>x\<in>set (take (first_index P xs i - i) xs). \<not> P x)"
proof (induction xs arbitrary: i)
  case Nil
  then show ?case by simp
next
  case (Cons x xs)
  show ?case
  proof (cases "P x")
    case True
    then show ?thesis by simp
  next
    case False
    with Cons.prems have "\<exists>x\<in>set xs. P x" by simp
    from Cons.IH [OF this, of "Suc i"] obtain d where
      d: "first_index P xs (Suc i) = Suc i + d" "d < length xs" "P (xs ! d)"
         "\<forall>x\<in>set (take d xs). \<not> P x"
      by (metis add_diff_cancel_left' le_Suc_ex nat_add_left_cancel_less)
    have "first_index P (x # xs) i = Suc i + d"
      using False d(1) by simp
    then show ?thesis
      using False d by simp
  qed
qed

lemma search_test:
  assumes "i + length xs \<le> n \<or> xs = []" "n < 2 ^ 31" "- 1 \<le> lo" "lo < int i"
  shows "(lo < to_int (first_index P xs i) \<and> to_int (first_index P xs i) < int n)
         = (\<exists>x\<in>set xs. P x)"
proof (cases "\<exists>x\<in>set xs. P x")
  case True
  from first_index_some [OF True, of i] have
    p: "i \<le> first_index P xs i" "first_index P xs i < i + length xs" by simp_all
  from True have "xs \<noteq> []" by auto
  with assms(1) p have "first_index P xs i < n" by simp
  with assms(2) have "to_int (first_index P xs i) = int (first_index P xs i)"
    by (intro to_int_small) simp
  with p \<open>first_index P xs i < n\<close> assms(4) True show ?thesis by simp
next
  case False
  then have "first_index P xs i = npos" by (intro first_index_none) simp
  with False assms(3) show ?thesis by (simp add: to_int_npos)
qed

lemma find_first_not_of_test:
  assumes "length text < 2 ^ 31"
  shows "(0 \<le> to_int (find_first_not_of text chars)
          \<and> to_int (find_first_not_of text chars) < int (length text))
         = (\<not> set text \<subseteq> set chars)"
proof -
  have "0 + length text \<le> length text \<or> text = []" by simp
  from search_test [OF this assms, of "- 1" "\<lambda>x. x \<notin> set chars"]
  have "(- 1 < to_int (find_first_not_of text chars)
          \<and> to_int (find_first_not_of text chars) < int (length text))
         = (\<exists>x\<in>set text. x \<notin> set chars)"
    by (simp add: find_first_not_of_def)
  moreover have "(\<exists>x\<in>set text. x \<notin> set chars) = (\<not> set text \<subseteq> set chars)" by blast
  moreover have "(- 1 < k) = (0 \<le> k)" for k :: int by linarith
  ultimately show ?thesis by simp
qed

lemma find_ch_test:
  assumes "length text < 2 ^ 31" "pos \<le> length text \<or> drop pos text = []"
    "- 1 \<le> lo" "lo < int pos"
  shows "(lo < to_int (find_ch text ch pos) \<and> to_int (find_ch text ch pos) < int (length text))
         = (ch \<in> set (drop pos text))"
proof -
  have "pos + length (drop pos text) \<le> length text \<or> drop pos text = []"
    using assms(2) by auto
  from search_test [OF this assms(1) assms(3) assms(4), of "\<lambda>x. x = ch"]
  show ?thesis by (simp add: find_ch_def)
qed

lemma isNumeric_iff:
  assumes len: "length text < 2 ^ 31"
  shows "(isNumeric text = 1)
         = (set text \<subseteq> set ''-0123456789.'' \<and> CHR ''-'' \<notin> set (drop 1 text)
            \<and> length (filter (\<lambda>x. x = CHR ''.'') text) \<le> 1)"
proof -
  let ?n = "length text"
  let ?dot = "\<lambda>x. x = CHR ''.''"
  have n: "to_int ?n = int ?n"
    using len by (rule to_int_small)
  note t1 = find_first_not_of_test [OF len, of "''-0123456789.''"]
  have "1 \<le> length text \<or> drop 1 text = []" by (cases "text") simp_all
  from find_ch_test [OF len this, of 0 "CHR ''-''"]
  have t2: "(0 < to_int (find_ch text (CHR ''-'') 1) \<and> to_int (find_ch text (CHR ''-'') 1) < int ?n)
            = (CHR ''-'' \<in> set (drop 1 text))"
    by simp
  have less: "(- 1 < k) = (0 \<le> k)" for k :: int by linarith
  from find_ch_test [of "text" 0 "- 1" "CHR ''.''"] len
  have t3: "(0 \<le> to_int (find_ch text (CHR ''.'') 0) \<and> to_int (find_ch text (CHR ''.'') 0) < int ?n)
            = (CHR ''.'' \<in> set text)"
    by (simp add: less)
  show ?thesis
  proof (cases "CHR ''.'' \<in> set text")
    case False
    then have "filter ?dot text = []" by (auto simp add: filter_empty_conv)
    with False show ?thesis
      unfolding isNumeric_def Let_def n t1 t2 t3 by simp
  next
    case True
    define p where "p = find_ch text (CHR ''.'') 0"
    from True have ex: "\<exists>x\<in>set text. ?dot x" by blast
    have p': "first_index ?dot text 0 = p"
      by (simp add: p_def find_ch_def)
    note found = first_index_some [OF ex, of 0, unfolded p']
    from found have
      p: "p < ?n" "text ! p = CHR ''.''" "\<forall>x\<in>set (take p text). x \<noteq> CHR ''.''"
      by simp_all
    from p(1) len have ip: "to_int p = int p" by (intro to_int_small) simp
    from find_ch_test [of "text" "Suc p" "- 1" "CHR ''.''"] len p(1)
    have t4: "(0 \<le> to_int (find_ch text (CHR ''.'') (Suc p))
               \<and> to_int (find_ch text (CHR ''.'') (Suc p)) < int ?n)
              = (CHR ''.'' \<in> set (drop (Suc p) text))"
      by (simp add: less)
    have "text = take p text @ text ! p # drop (Suc p) text"
      using p(1) by (rule id_take_nth_drop)
    then have "filter ?dot text = filter ?dot (take p text) @ filter ?dot (text ! p # drop (Suc p) text)"
      by (metis filter_append)
    moreover have "filter ?dot (take p text) = []"
      using p(3) by (auto simp add: filter_empty_conv)
    ultimately have "length (filter ?dot text) = Suc (length (filter ?dot (drop (Suc p) text)))"
      using p(2) by simp
    then have cnt: "(length (filter ?dot text) \<le> 1) = (CHR ''.'' \<notin> set (drop (Suc p) text))"
      by (auto simp add: filter_empty_conv)
    have nat: "nat (int p + 1) = Suc p" by simp
    from True show ?thesis
      unfolding isNumeric_def Let_def n t1 t2 t3 p_def [symmetric] ip nat t4 cnt by simp
  qed
qed

lemma allowed_iff:
  "(x \<in> set ''-0123456789.'') = (x = CHR ''-'' \<or> is_digit x \<or> x = CHR ''.'')"
  by (simp add: is_digit_def)

lemma allowed_subset:
  "(set t \<subseteq> set ''-0123456789.'') = (\<forall>x\<in>set t. x = CHR ''-'' \<or> is_digit x \<or> x = CHR ''.'')"
  unfolding subset_eq by (simp only: allowed_iff)

lemma is_digit_not_sign: "is_digit x \<Longrightarrow> x \<noteq> CHR ''-'' \<and> x \<noteq> CHR ''.''"
  by (auto simp add: is_digit_def)

lemma body_allowed_gen:
  "\<not> D m \<Longrightarrow> m \<noteq> d \<Longrightarrow>
     ((\<forall>x\<in>set b. x = m \<or> D x \<or> x = d) \<and> m \<notin> set b) = (\<forall>x\<in>set b. D x \<or> x = d)"
  by auto

lemma body_allowed:
  "((\<forall>x\<in>set b. x = CHR ''-'' \<or> is_digit x \<or> x = CHR ''.'') \<and> CHR ''-'' \<notin> set b)
   = list_all (\<lambda>x. is_digit x \<or> x = CHR ''.'') b"
  unfolding list_all_iff
  by (rule body_allowed_gen) (simp_all add: is_digit_def)

lemma body_without_digit:
  assumes "list_all (\<lambda>x. is_digit x \<or> x = CHR ''.'') b"
    "length (filter (\<lambda>x. x = CHR ''.'') b) \<le> 1" "\<not> list_ex is_digit b"
  shows "b = [] \<or> b = ''.''"
proof -
  from assms(1,3) have all: "\<forall>x\<in>set b. x = CHR ''.''"
    unfolding list_all_iff list_ex_iff by blast
  then have "filter (\<lambda>x. x = CHR ''.'') b = b"
    by (simp add: filter_id_conv)
  with assms(2) have "length b \<le> 1" by simp
  with all show ?thesis by (cases b) auto
qed

lemma body_cases:
  "(list_all (\<lambda>x. is_digit x \<or> x = CHR ''.'') b \<and> length (filter (\<lambda>x. x = CHR ''.'') b) \<le> 1)
   = ((list_all (\<lambda>x. is_digit x \<or> x = CHR ''.'') b \<and> length (filter (\<lambda>x. x = CHR ''.'') b) \<le> 1
       \<and> list_ex is_digit b)
      \<or> b = [] \<or> b = ''.'')"
proof -
  let ?ok = "\<lambda>b. list_all (\<lambda>x. is_digit x \<or> x = CHR ''.'') b
                 \<and> length (filter (\<lambda>x. x = CHR ''.'') b) \<le> 1"
  have "?ok []" "?ok ''.''" by simp_all
  with body_without_digit [of b] show ?thesis by blast
qed

lemma isNumeric_signed_decimal:
  assumes "length text < 2 ^ 31"
  shows "(isNumeric text = 1)
         = (signed_decimal text \<or> text = [] \<or> text = ''-'' \<or> text = ''.'' \<or> text = ''-.'')"
proof -
  let ?A = "\<lambda>x. x = CHR ''-'' \<or> is_digit x \<or> x = CHR ''.''"
  let ?L = "list_all (\<lambda>x. is_digit x \<or> x = CHR ''.'')"
  let ?dots = "\<lambda>b. length (filter (\<lambda>x. x = CHR ''.'') b)"
  note iff = isNumeric_iff [OF assms, unfolded allowed_subset]
  show ?thesis
  proof (cases "text")
    case Nil
    with iff show ?thesis by simp
  next
    case (Cons x xs)
    show ?thesis
    proof (cases "x = CHR ''-''")
      case True
      have f: "(\<forall>x\<in>set text. ?A x) = (\<forall>x\<in>set xs. ?A x)" "drop 1 text = xs" "?dots text = ?dots xs"
        by (simp_all add: Cons True)
      have num: "(isNumeric text = 1) = (?L xs \<and> ?dots xs \<le> 1)"
        unfolding iff f body_allowed [of xs, symmetric] by (rule conj_assoc [symmetric])
      have sd: "signed_decimal text = (?L xs \<and> ?dots xs \<le> 1 \<and> list_ex is_digit xs)"
        by (simp add: signed_decimal_def Cons True)
      have toks: "(text = []) = False" "(text = ''-'') = (xs = [])" "(text = ''.'') = False"
        "(text = ''-.'') = (xs = ''.'')"
        by (simp_all add: Cons True)
      show ?thesis
        unfolding num sd toks using body_cases [of xs] by simp
    next
      case False
      have f: "(CHR ''-'' \<notin> set (drop 1 text)) = (CHR ''-'' \<notin> set xs)"
        by (simp add: Cons)
      have g: "((\<forall>x\<in>set text. ?A x) \<and> CHR ''-'' \<notin> set xs) = ?L text"
        unfolding body_allowed [of "text", symmetric] using False by (simp add: Cons)
      have num: "(isNumeric text = 1) = (?L text \<and> ?dots text \<le> 1)"
        unfolding iff f g [symmetric] by (rule conj_assoc [symmetric])
      have sd: "signed_decimal text = (?L text \<and> ?dots text \<le> 1 \<and> list_ex is_digit text)"
        using False by (simp add: signed_decimal_def Cons)
      have toks: "(text = []) = False" "(text = ''-'') = False" "(text = ''-.'') = False"
        using False by (simp_all add: Cons)
      from body_cases [of "text"] toks(1)
      have "(?L text \<and> ?dots text \<le> 1)
            = ((?L text \<and> ?dots text \<le> 1 \<and> list_ex is_digit text) \<or> text = ''.'')"
        by blast
      then show ?thesis
        unfolding num sd toks by simp
    qed
  qed
qed

subsection \<open>The claims\<close>

text \<open>
  Claim C1. When no row passes the convergence test, \<open>romberg\<close> should return the most
  refined estimate of the table. It returns \<open>R.back()\<close>, the entry \<open>R[N*N-1]\<close>, which no
  row writes: row \<open>i\<close> fills \<open>R[N*i] .. R[N*i+i-1]\<close>, so the last estimate is
  \<open>R[N*(N-1)+N-2]\<close>. At \<open>Cosmo(70, 0, 2)\<close> the age integrand is NaN at the upper bound
  (the radicand of \<open>E\<close> is negative there), every entry of the first column is NaN, no
  row converges, the last estimate is NaN, and \<open>romberg\<close> returns the initial \<open>0.0\<close> of
  the vector: the age of this universe is reported as \<open>0\<close>.
\<close>

theorem romberg_cap_returns_unwritten_entry:
  "(\<exists>R. romberg_rows (ageIntegrand (Cosmo_params (Fin 70) (Fin 0) (Fin 2))) (Fin 0) 1
          (Fin 1 - epsilon - Fin 0) 1
          ((replicate (N * N) (Fin 0))[0 := (Fin 1 - epsilon - Fin 0) / Fin 2
             * (ageIntegrand (Cosmo_params (Fin 70) (Fin 0) (Fin 2)) (Fin 0)
                + ageIntegrand (Cosmo_params (Fin 70) (Fin 0) (Fin 2)) (Fin 1 - epsilon))])
        = Exhausted R
      \<and> R ! (N * (N - 1) + (N - 2)) = NaN \<and> last R = Fin 0)
   \<and> romberg (ageIntegrand (Cosmo_params (Fin 70) (Fin 0) (Fin 2))) (Fin 0) (Fin 1 - epsilon) = Fin 0
   \<and> age_f (Cosmo_params (Fin 70) (Fin 0) (Fin 2)) = Fin 0"
proof -
  let ?obj = "Cosmo_params (Fin 70) (Fin 0) (Fin 2)"
  let ?func = "ageIntegrand ?obj"
  let ?b = "Fin 1 - epsilon"
  let ?R0 = "(replicate (N * N) (Fin 0))[0 := (?b - Fin 0) / Fin 2 * (?func (Fin 0) + ?func ?b)]"
  have "?R0 ! 0 = NaN"
    by (simp add: ageIntegrand_closed_NaN N_def)
  then obtain R where R: "romberg_rows ?func (Fin 0) 1 (?b - Fin 0) 1 ?R0 = Exhausted R"
      "R ! (N * (N - 1) + (N - 2)) = NaN"
    using romberg_rows_NaN [of ?R0 1 ?func "Fin 0" "?b - Fin 0" 1] by (auto simp add: N_def)
  from romberg_rows_back [OF R(1)] have "length R = N * N" "R ! (N * N - 1) = Fin 0"
    by (simp_all add: N_def)
  then have last: "last R = Fin 0"
    by (subst last_conv_nth) (auto simp add: N_def)
  have rom: "romberg ?func (Fin 0) ?b = Fin 0"
    by (rule romberg_exhausted [OF R(1)])
  have "age_f ?obj = romberg ?func (Fin 0) ?b / Fin 70 * kmPerMpc"
    by (simp add: Cosmo_params_def init_age)
  then have "age_f ?obj = Fin 0"
    by (simp add: rom kmPerMpc_def)
  with R last rom show ?thesis by blast
qed

text \<open>
  Claim C2. \<open>setCosmology\<close> should recompute the redshift-dependent quantities for the
  redshift set before and keep that redshift. It calls \<open>init\<close> first, which sets
  \<open>z_\<close> to \<open>0\<close>, so the test \<open>if (z_)\<close> that follows never holds: the call is \<open>init\<close>, the
  redshift is \<open>0\<close> afterwards and every redshift-dependent quantity is \<open>0\<close>, whatever the
  redshift was. The first two conjuncts run it on an object at redshift 1.
\<close>

theorem setCosmology_clears_redshift:
  "z_f (setRedshift (Fin 1) (Cosmo_params (Fin 70) (Fin 0.3) (Fin 0.7))) = Fin 1
   \<and> z_f (setCosmology (Fin 50) (Fin 1) (Fin 0)
          (setRedshift (Fin 1) (Cosmo_params (Fin 70) (Fin 0.3) (Fin 0.7)))) = Fin 0
   \<and> setCosmology hNought omegaMatter omegaLambda this = init hNought omegaMatter omegaLambda this
   \<and> z_f (setCosmology hNought omegaMatter omegaLambda this) = Fin 0
   \<and> dC_f (setCosmology hNought omegaMatter omegaLambda this) = Fin 0
   \<and> dM_f (setCosmology hNought omegaMatter omegaLambda this) = Fin 0
   \<and> dA_f (setCosmology hNought omegaMatter omegaLambda this) = Fin 0
   \<and> dL_f (setCosmology hNought omegaMatter omegaLambda this) = Fin 0
   \<and> VC_f (setCosmology hNought omegaMatter omegaLambda this) = Fin 0
   \<and> tL_f (setCosmology hNought omegaMatter omegaLambda this) = Fin 0
   \<and> scale_f (setCosmology hNought omegaMatter omegaLambda this) = Fin 0
   \<and> rhoCrit_f (setCosmology hNought omegaMatter omegaLambda this) = Fin 0"
  by (simp add: setCosmology_eq_init)













text \<open>
  Claim C9. \<open>isNumeric\<close> should accept a token exactly when it parses as a signed decimal
  number. It checks the characters, the place of the minus sign and the number of
  decimal points, but not that there is a digit: it accepts \<open>"-"\<close>, \<open>"."\<close>, \<open>"-."\<close> and
  the empty token, none of which is a number.
\<close>

theorem isNumeric_accepts_tokens_without_digits:
  "isNumeric ''-'' = 1 \<and> \<not> signed_decimal ''-''
   \<and> isNumeric ''.'' = 1 \<and> \<not> signed_decimal ''.''
   \<and> isNumeric ''-.'' = 1 \<and> \<not> signed_decimal ''-.''
   \<and> isNumeric [] = 1 \<and> \<not> signed_decimal []"
  by (simp add: isNumeric_def find_first_not_of_def find_ch_def to_int_def npos_def
      signed_decimal_def is_digit_def)

text \<open>
  Claim C10. The copy constructor and the assignment operator (between two distinct
  objects) give the target the source's \<open>H0\<close>, \<open>OmegaM\<close>, \<open>OmegaL\<close> and redshift, and make
  it the object that construction from these parameters followed by
  \<open>setRedshift(a.z)\<close> gives; the source is unchanged. \<open>setCosmology\<close> with the same
  parameters leaves the redshift at \<open>0\<close>.
\<close>

theorem copy_keeps_redshift:
  "H0_f (Cosmo_copy a) = H0_f a \<and> OmegaM_f (Cosmo_copy a) = OmegaM_f a
   \<and> OmegaL_f (Cosmo_copy a) = OmegaL_f a \<and> z_f (Cosmo_copy a) = z_f a
   \<and> Cosmo_copy a = setRedshift (z_f a) (Cosmo_params (H0_f a) (OmegaM_f a) (OmegaL_f a))
   \<and> z_f (setCosmology (H0_f a) (OmegaM_f a) (OmegaL_f a) a) = Fin 0
   \<and> (this \<noteq> src \<longrightarrow>
        operator_assign this src mem src = mem src
        \<and> H0_f (operator_assign this src mem this) = H0_f (mem src)
        \<and> OmegaM_f (operator_assign this src mem this) = OmegaM_f (mem src)
        \<and> OmegaL_f (operator_assign this src mem this) = OmegaL_f (mem src)
        \<and> z_f (operator_assign this src mem this) = z_f (mem src)
        \<and> operator_assign this src mem this
            = setRedshift (z_f (mem src))
                (Cosmo_params (H0_f (mem src)) (OmegaM_f (mem src)) (OmegaL_f (mem src))))"
proof -
  have "clone b s = setRedshift (z_f b) (Cosmo_params (H0_f b) (OmegaM_f b) (OmegaL_f b))" for b s
    unfolding clone_def Cosmo_params_def by (simp only: init_overwrites [of _ _ _ s storage])
  then show ?thesis
    by (simp add: Cosmo_copy_def operator_assign_def setCosmology_eq_init Cosmo_params_def)
qed

theorem copy_keeps_redshift_witness:
  "(0::nat) \<noteq> 1
   \<and> z_f (operator_assign 0 1 ((\<lambda>p. Cosmo_default)(1 := setRedshift (Fin 1) Cosmo_default)) 0) = Fin 1
   \<and> z_f (operator_assign 0 1 ((\<lambda>p. Cosmo_default)(1 := setRedshift (Fin 1) Cosmo_default)) 1) = Fin 1"
  using copy_keeps_redshift [of _ 0 1 "(\<lambda>p. Cosmo_default)(1 := setRedshift (Fin 1) Cosmo_default)"]
  by simp


end
